theory Spec2Isabelle
  imports Complex_Main
begin

section \<open>The scanner and parser of scanner.cpp\<close>

text \<open>
  The program is one C++ file: a lexer \<open>gettok\<close> reading characters from standard input,
  the AST classes, a recursive-descent parser with precedence climbing, and the driver loop
  \<open>TopLevelParse\<close>. All of its state lives in global and function-static variables; the
  embedding threads them through every function as one record.

  The file is a draft that a C++ compiler rejects: functions are called above their
  declarations, \<open>ParseFuncProto\<close> and \<open>ParseIdentifier\<close> leave through a bare \<open>return;\<close>
  after \<open>RaiseError\<close>, a \<open>unique_ptr\<close> is copied into a vector, and \<open>TopLevelParse\<close> ends
  without a \<open>return\<close>. The embedding reads each statement for what it says: a bare
  \<open>return;\<close> after an error is the null result, \<open>push_back\<close> appends the tree, and
  \<open>TopLevelParse\<close> yields the state in which its loop ends.
\<close>

subsection \<open>Tokens\<close>

text \<open>
  \<open>enum Token\<close>: the negative values are the token kinds, every other token is the
  character itself (\<open>0..255\<close>, as \<open>getchar\<close> returns it). \<open>EOF\<close> is the macro of
  \<open>cstdio\<close>, \<open>-1\<close> on every mainstream platform, so \<open>tok_eof\<close> and \<open>EOF\<close> coincide,
  as the loop test \<open>CurrToken != EOF\<close> of the driver relies on.
\<close>

abbreviation EOF :: int where "EOF \<equiv> -1"
abbreviation tok_eof :: int where "tok_eof \<equiv> -1"
abbreviation tok_func :: int where "tok_func \<equiv> -2"
abbreviation tok_import :: int where "tok_import \<equiv> -3"
abbreviation tok_identifier :: int where "tok_identifier \<equiv> -4"
abbreviation tok_number :: int where "tok_number \<equiv> -5"

subsection \<open>The C library functions the lexer calls\<close>

text \<open>
  \<open>isspace\<close>, \<open>isalpha\<close>, \<open>isdigit\<close> and \<open>isalnum\<close> of \<open>cctype\<close>, in the "C" locale
  (the program never calls \<open>setlocale\<close>). They take the \<open>int\<close> that \<open>getchar\<close> returned;
  all of them are false at \<open>EOF\<close>.
\<close>

definition isspace :: "int \<Rightarrow> bool" where
  "isspace c \<longleftrightarrow> c = 32 \<or> (9 \<le> c \<and> c \<le> 13)"

definition isdigit :: "int \<Rightarrow> bool" where
  "isdigit c \<longleftrightarrow> 48 \<le> c \<and> c \<le> 57"

definition isalpha :: "int \<Rightarrow> bool" where
  "isalpha c \<longleftrightarrow> (65 \<le> c \<and> c \<le> 90) \<or> (97 \<le> c \<and> c \<le> 122)"

definition isalnum :: "int \<Rightarrow> bool" where
  "isalnum c \<longleftrightarrow> isalpha c \<or> isdigit c"

text \<open>
  \<open>strtod\<close> on the strings the lexer hands it, which hold digits and dots only: the longest
  prefix of the shape digits, optional dot, digits (with at least one digit) is converted,
  and a string with no such prefix gives 0. The value is the exact decimal; the rounding
  to the nearest \<open>double\<close> is left out (an integer literal below \<open>2^53\<close> is exact anyway).
\<close>

fun decimal :: "string \<Rightarrow> nat" where
  "decimal ds = foldl (\<lambda>a d. 10 * a + (of_char d - 48)) 0 ds"

definition strtod :: "string \<Rightarrow> real" where
  "strtod str =
     (let ip = takeWhile (\<lambda>c. isdigit (of_char c)) str;
          rest = dropWhile (\<lambda>c. isdigit (of_char c)) str;
          fp = (case rest of [] \<Rightarrow> [] | c # cs \<Rightarrow>
                  if c = CHR ''.'' then takeWhile (\<lambda>c. isdigit (of_char c)) cs else [])
      in if ip = [] \<and> fp = [] then 0
         else real (decimal ip) + real (decimal fp) / 10 ^ length fp)"

subsection \<open>The program state\<close>

text \<open>
  \<^item> \<open>stdin\<close>: the characters of standard input not yet read by \<open>getchar\<close>;
  \<^item> \<open>LastChar\<close>: the function-static look-ahead of \<open>gettok\<close>;
  \<^item> \<open>IdentifierStr\<close>, \<open>NumVal\<close>: the lexer's two output buffers;
  \<^item> \<open>CurrToken\<close>: the parser's current token;
  \<^item> \<open>ORDER_OF_OPS\<close>: the \<open>std::map<char, int>\<close> of operator precedences. A C++ \<open>char\<close>
    is one byte, as \<open>char\<close> is here. The values are C++ \<open>int\<close>s, modelled as unbounded
    integers: the only arithmetic on them is \<open>TokPrec + 1\<close>, whose overflow at \<open>INT_MAX\<close>
    is undefined behaviour in C++ and outside this model;
  \<^item> \<open>stderr\<close>: everything \<open>RaiseError\<close> has printed.
\<close>

record state =
  stdin :: "char list"
  LastChar :: int
  IdentifierStr :: string
  NumVal :: real
  CurrToken :: int
  ORDER_OF_OPS :: "char \<rightharpoonup> int"
  stderr :: string

text \<open>
  The state at program start, for a table \<open>T\<close> and an input text: \<open>LastChar\<close> is
  initialised to a space, \<open>CurrToken\<close> (a static \<open>int\<close>) to zero. \<open>main\<close> itself starts
  with the empty table, since nothing in the program ever populates it.
\<close>

definition initial :: "(char \<rightharpoonup> int) \<Rightarrow> string \<Rightarrow> state" where
  "initial T inp = \<lparr>stdin = inp, LastChar = 32, IdentifierStr = [], NumVal = 0,
     CurrToken = 0, ORDER_OF_OPS = T, stderr = []\<rparr>"

text \<open>\<open>getchar\<close>: the next character as an \<open>unsigned char\<close> value, or \<open>EOF\<close> for ever
  once the input is exhausted.\<close>

definition getchar :: "state \<Rightarrow> int \<times> state" where
  "getchar s = (case stdin s of [] \<Rightarrow> (EOF, s) | c # cs \<Rightarrow> (of_char c, s\<lparr>stdin := cs\<rparr>))"

text \<open>The statement \<open>LastChar = getchar();\<close>, which every loop of the lexer runs.\<close>

definition next_LastChar :: "state \<Rightarrow> state" where
  "next_LastChar s = (case getchar s of (c, s') \<Rightarrow> s'\<lparr>LastChar := c\<rparr>)"

lemma stdin_next_LastChar: "stdin (next_LastChar s) = tl (stdin s)"
  by (simp add: next_LastChar_def getchar_def split: list.split)

lemma next_LastChar_shrinks:
  "LastChar (next_LastChar s) \<noteq> EOF \<Longrightarrow> length (stdin (next_LastChar s)) < length (stdin s)"
  by (cases "stdin s") (simp_all add: next_LastChar_def getchar_def)

subsection \<open>gettok\<close>

text \<open>The four loops of \<open>gettok\<close>, each a function of its own. First
  \<open>while (isspace(LastChar)) LastChar = getchar();\<close>\<close>

function skip_space :: "state \<Rightarrow> state" where
  "skip_space s = (if isspace (LastChar s) then skip_space (next_LastChar s) else s)"
  by pat_completeness auto
termination
proof (relation "measure (\<lambda>s. length (stdin s) + (if isspace (LastChar s) then 1 else 0))")
  show "wf (measure (\<lambda>s. length (stdin s) + (if isspace (LastChar s) then 1 else 0)))"
    by simp
next
  fix s :: state
  assume "isspace (LastChar s)"
  then show "(next_LastChar s, s)
      \<in> measure (\<lambda>s. length (stdin s) + (if isspace (LastChar s) then 1 else 0))"
    by (cases "stdin s") (simp_all add: next_LastChar_def getchar_def isspace_def)
qed

text \<open>\<open>while (isalnum((LastChar = getchar()))) IdentifierStr += LastChar;\<close>\<close>

function ident_loop :: "state \<Rightarrow> state" where
  "ident_loop s =
     (let s1 = next_LastChar s in
      if isalnum (LastChar s1)
      then ident_loop (s1\<lparr>IdentifierStr := IdentifierStr s1 @ [char_of (LastChar s1)]\<rparr>)
      else s1)"
  by pat_completeness auto
termination
  by (relation "measure (\<lambda>s. length (stdin s))")
     (auto simp: isalnum_def isalpha_def isdigit_def intro!: next_LastChar_shrinks)

text \<open>\<open>do { numberString += LastChar; LastChar = getchar(); }
  while (isdigit(LastChar) || LastChar == '.');\<close>\<close>

function number_loop :: "string \<Rightarrow> state \<Rightarrow> string \<times> state" where
  "number_loop numberString s =
     (let numberString1 = numberString @ [char_of (LastChar s)];
          s1 = next_LastChar s in
      if isdigit (LastChar s1) \<or> LastChar s1 = 46
      then number_loop numberString1 s1
      else (numberString1, s1))"
  by pat_completeness auto
termination
  by (relation "measure (\<lambda>(n, s). length (stdin s))")
     (auto simp: isdigit_def intro!: next_LastChar_shrinks)

text \<open>\<open>do LastChar = getchar();
  while (LastChar != '\n' && LastChar != '\r' && LastChar != EOF);\<close>\<close>

function comment_loop :: "state \<Rightarrow> state" where
  "comment_loop s =
     (let s1 = next_LastChar s in
      if LastChar s1 \<noteq> 10 \<and> LastChar s1 \<noteq> 13 \<and> LastChar s1 \<noteq> EOF
      then comment_loop s1
      else s1)"
  by pat_completeness auto
termination
  by (relation "measure (\<lambda>s. length (stdin s))")
     (auto intro!: next_LastChar_shrinks)

declare skip_space.simps [simp del] ident_loop.simps [simp del]
  number_loop.simps [simp del] comment_loop.simps [simp del]

lemma skip_space_stdin: "length (stdin (skip_space s)) \<le> length (stdin s)"
proof (induction s rule: skip_space.induct)
  case (1 s)
  show ?case
  proof (cases "isspace (LastChar s)")
    case True
    with 1 have "length (stdin (skip_space (next_LastChar s)))
        \<le> length (stdin (next_LastChar s))"
      by simp
    also have "\<dots> \<le> length (stdin s)"
      by (simp add: stdin_next_LastChar)
    finally show ?thesis
      using True by (subst skip_space.simps) simp
  next
    case False
    then show ?thesis
      by (subst skip_space.simps) simp
  qed
qed

lemma comment_loop_stdin:
  "LastChar (comment_loop s) \<noteq> EOF \<Longrightarrow> length (stdin (comment_loop s)) < length (stdin s)"
proof (induction s rule: comment_loop.induct)
  case (1 s)
  let ?s1 = "next_LastChar s"
  show ?case
  proof (cases "LastChar ?s1 \<noteq> 10 \<and> LastChar ?s1 \<noteq> 13 \<and> LastChar ?s1 \<noteq> EOF")
    case True
    then have eq: "comment_loop s = comment_loop ?s1"
      by (subst comment_loop.simps) (simp add: Let_def)
    with 1 True have "length (stdin (comment_loop ?s1)) < length (stdin ?s1)"
      by simp
    also have "\<dots> \<le> length (stdin s)"
      by (simp add: stdin_next_LastChar)
    finally show ?thesis
      using eq by simp
  next
    case False
    then have eq: "comment_loop s = ?s1"
      by (subst comment_loop.simps) (auto simp: Let_def)
    with 1(2) show ?thesis
      by (simp add: next_LastChar_shrinks)
  qed
qed

text \<open>The last lines of \<open>gettok\<close>: end of file, else the character itself as the token.\<close>

definition gettok_rest :: "state \<Rightarrow> int \<times> state" where
  "gettok_rest s =
     (if LastChar s = EOF then (tok_eof, s)
      else (let ThisChar = LastChar s; s1 = next_LastChar s in (ThisChar, s1)))"

text \<open>
  \<open>gettok\<close> returns the token and leaves its payload in \<open>IdentifierStr\<close> or \<open>NumVal\<close>.
  After a comment it calls itself when the comment ended at a line end, and falls through
  to the end-of-file test otherwise. The recursion is on a strictly shorter input.
\<close>

function gettok :: "state \<Rightarrow> int \<times> state" where
  "gettok s0 =
     (let s = skip_space s0 in
      if isalpha (LastChar s) then
        (let s1 = ident_loop (s\<lparr>IdentifierStr := [char_of (LastChar s)]\<rparr>) in
         if IdentifierStr s1 = ''func'' then (tok_func, s1)
         else if IdentifierStr s1 = ''import'' then (tok_import, s1)
         else (tok_identifier, s1))
      else if isdigit (LastChar s) \<or> LastChar s = 46 then
        (case number_loop [] s of (numberString, s1) \<Rightarrow>
           (tok_number, s1\<lparr>NumVal := strtod numberString\<rparr>))
      else if LastChar s = 35 then
        (let s1 = comment_loop s in
         if LastChar s1 \<noteq> EOF then gettok s1 else gettok_rest s1)
      else gettok_rest s)"
  by pat_completeness auto
termination
proof (relation "measure (\<lambda>s. length (stdin s))")
  show "wf (measure (\<lambda>s. length (stdin s)))"
    by simp
next
  fix s0 s s1 :: state
  assume "s = skip_space s0" "s1 = comment_loop s" "LastChar s1 \<noteq> EOF"
  then have "length (stdin s1) < length (stdin s)"
    by (simp add: comment_loop_stdin)
  also have "\<dots> \<le> length (stdin s0)"
    using \<open>s = skip_space s0\<close> by (simp add: skip_space_stdin)
  finally show "(s1, s0) \<in> measure (\<lambda>s. length (stdin s))"
    by simp
qed

declare gettok.simps [simp del]

subsection \<open>The abstract syntax tree\<close>

text \<open>
  The classes derived from \<open>ExprAST\<close>, one constructor each, with the fields in the order
  of the C++ constructors' parameters; a null \<open>unique_ptr\<close> is \<open>None\<close>. \<open>FuncProtoAST\<close>
  is a type of its own because \<open>FunctionAST\<close> owns exactly a prototype and no parser
  function returns a prototype where an expression is expected. \<open>BinOpAST\<close> stores its
  operator as a \<open>char\<close>.
\<close>

datatype FuncProtoAST = FuncProtoAST (argNames: "string list") (name: string)

datatype ExprAST =
    NumberAST real
  | BinOpAST char ExprAST ExprAST
  | VariableAST string
  | FuncCallAST string "ExprAST list"
  | FunctionAST FuncProtoAST ExprAST

subsection \<open>Parser primitives\<close>

text \<open>\<open>GetNextToken\<close> stores the next token in \<open>CurrToken\<close>; the value it returns is
  the \<open>CurrToken\<close> of the state it leaves.\<close>

definition GetNextToken :: "state \<Rightarrow> state" where
  "GetNextToken s = (case gettok s of (t, s') \<Rightarrow> s'\<lparr>CurrToken := t\<rparr>)"

text \<open>
  The expression \<open>ORDER_OF_OPS[k]\<close> for an \<open>int\<close> token \<open>k\<close>. The key is \<open>k\<close> converted
  to \<open>char\<close>, that is \<open>k\<close> modulo 256, so \<open>tok_eof\<close> and the byte \<open>0xFF\<close> are one key.
  \<open>std::map::operator[]\<close> on a key that is absent inserts it with a value-initialised
  \<open>int\<close>, zero, and returns that.
\<close>

definition ORDER_OF_OPS_at :: "int \<Rightarrow> state \<Rightarrow> int \<times> state" where
  "ORDER_OF_OPS_at k s =
     (case ORDER_OF_OPS s (char_of k) of
        Some v \<Rightarrow> (v, s)
      | None \<Rightarrow> (0, s\<lparr>ORDER_OF_OPS := (ORDER_OF_OPS s)(char_of k \<mapsto> 0)\<rparr>))"

text \<open>\<open>RaiseError\<close> prints \<open>"Error: %s\n"\<close> with the message to \<open>stderr\<close> and returns
  the null pointer; the model keeps the printing here and writes the \<open>None\<close> at each
  call.\<close>

definition RaiseError :: "string \<Rightarrow> state \<Rightarrow> state" where
  "RaiseError msg s = s\<lparr>stderr := stderr s @ ''Error: '' @ msg @ ''\<newline>''\<rparr>"

definition ParseNumber :: "state \<Rightarrow> ExprAST option \<times> state" where
  "ParseNumber s = (let result = NumberAST (NumVal s) in (Some result, GetNextToken s))"

subsection \<open>Function prototypes\<close>

text \<open>
  The parameter loop of \<open>ParseFuncProto\<close>,
  \<open>do { if (CurrToken != tok_identifier) {...} args.push_back(IdentifierStr); }
  while (GetNextToken() == ',');\<close>.
  Where the source writes \<open>RaiseError(...); return;\<close> the function ends with no
  prototype, the null result its caller tests for. The loop is re-entered only with
  \<open>','\<close> as the current token, where its first test fails: that is its termination.
\<close>

function ParseFuncProto_args :: "string list \<Rightarrow> state \<Rightarrow> string list option \<times> state" where
  "ParseFuncProto_args args s =
     (if CurrToken s \<noteq> tok_identifier
      then (None, RaiseError ''Expected identifier in function definition.'' s)
      else (let args1 = args @ [IdentifierStr s]; s1 = GetNextToken s in
            if CurrToken s1 = 44 then ParseFuncProto_args args1 s1 else (Some args1, s1)))"
  by pat_completeness auto
termination
  by (relation "measure (\<lambda>(args, s). if CurrToken s = tok_identifier then 1 else 0)") auto

declare ParseFuncProto_args.simps [simp del]

definition ParseFuncProto :: "state \<Rightarrow> FuncProtoAST option \<times> state" where
  "ParseFuncProto s0 =
     (let s1 = GetNextToken s0 in
      if CurrToken s1 \<noteq> tok_identifier
      then (None, RaiseError ''Expected identifier in function definition.'' s1)
      else (let name = IdentifierStr s1; s2 = GetNextToken s1 in
        if CurrToken s2 \<noteq> 40
        then (None, RaiseError ''Expected '(' in function definition.'' s2)
        else (let s3 = GetNextToken s2 in
          case ParseFuncProto_args [] s3 of
            (None, s4) \<Rightarrow> (None, s4)
          | (Some args, s4) \<Rightarrow>
              if CurrToken s4 \<noteq> 41
              then (None, RaiseError ''Expected ')' in function definition'' s4)
              else (Some (FuncProtoAST args name), GetNextToken s4))))"

subsection \<open>Expressions\<close>

text \<open>
  \<open>ParseExpr\<close>, \<open>ParseLhs\<close>, \<open>ParseParenExpr\<close>, \<open>ParseIdentifier\<close> and \<open>ParseBinOpRhs\<close>
  call one another, and \<open>ParseBinOpRhs\<close> loops. Each model function takes a fuel that
  every call and every loop iteration decreases by one; the outer \<open>None\<close> says the fuel
  ran out, \<open>Some (None, s)\<close> is the null pointer returned in state \<open>s\<close>, and
  \<open>Some (Some e, s)\<close> the tree \<open>e\<close>. \<open>ParseIdentifier_args\<close> is the argument loop of
  \<open>ParseIdentifier\<close>, \<open>do { arg = ParseExpr(); ... } while (GetNextToken() == ',');\<close>.
  \<open>ParseParenExpr\<close> does not test its expression for null: with \<open>')'\<close> current it eats
  the token and returns whatever \<open>ParseExpr\<close> gave.
\<close>

fun ParseExpr :: "nat \<Rightarrow> state \<Rightarrow> (ExprAST option \<times> state) option"
and ParseLhs :: "nat \<Rightarrow> state \<Rightarrow> (ExprAST option \<times> state) option"
and ParseParenExpr :: "nat \<Rightarrow> state \<Rightarrow> (ExprAST option \<times> state) option"
and ParseIdentifier :: "nat \<Rightarrow> state \<Rightarrow> (ExprAST option \<times> state) option"
and ParseIdentifier_args ::
  "nat \<Rightarrow> ExprAST list \<Rightarrow> state \<Rightarrow> (ExprAST list option \<times> state) option"
and ParseBinOpRhs :: "nat \<Rightarrow> int \<Rightarrow> ExprAST \<Rightarrow> state \<Rightarrow> (ExprAST option \<times> state) option"
where
  "ParseExpr 0 s = None"
| "ParseExpr (Suc n) s =
     (case ParseLhs n s of
        None \<Rightarrow> None
      | Some (None, s1) \<Rightarrow> Some (None, s1)
      | Some (Some lhs, s1) \<Rightarrow> ParseBinOpRhs n 0 lhs s1)"
| "ParseLhs 0 s = None"
| "ParseLhs (Suc n) s =
     (if CurrToken s = tok_identifier then ParseIdentifier n s
      else if CurrToken s = tok_number then Some (ParseNumber s)
      else if CurrToken s = 40 then ParseParenExpr n s
      else Some (None, RaiseError ''Invalid expression. Expected LHS.'' s))"
| "ParseParenExpr 0 s = None"
| "ParseParenExpr (Suc n) s0 =
     (let s1 = GetNextToken s0 in
      case ParseExpr n s1 of
        None \<Rightarrow> None
      | Some (expr, s2) \<Rightarrow>
          if CurrToken s2 \<noteq> 41 then Some (None, RaiseError ''Expected ')'.'' s2)
          else Some (expr, GetNextToken s2))"
| "ParseIdentifier 0 s = None"
| "ParseIdentifier (Suc n) s0 =
     (let name = IdentifierStr s0; s1 = GetNextToken s0 in
      if CurrToken s1 \<noteq> 40 then Some (Some (VariableAST name), s1)
      else (case ParseIdentifier_args n [] s1 of
              None \<Rightarrow> None
            | Some (None, s2) \<Rightarrow> Some (None, s2)
            | Some (Some args, s2) \<Rightarrow>
                if CurrToken s2 \<noteq> 41
                then Some (None, RaiseError ''Expected ')' in function call'' s2)
                else Some (Some (FuncCallAST name args), GetNextToken s2)))"
| "ParseIdentifier_args 0 args s = None"
| "ParseIdentifier_args (Suc n) args s =
     (case ParseExpr n s of
        None \<Rightarrow> None
      | Some (None, s1) \<Rightarrow> Some (None, s1)
      | Some (Some arg, s1) \<Rightarrow>
          (let args1 = args @ [arg]; s2 = GetNextToken s1 in
           if CurrToken s2 = 44 then ParseIdentifier_args n args1 s2
           else Some (Some args1, s2)))"
| "ParseBinOpRhs 0 ExprPrec lhs s = None"
| "ParseBinOpRhs (Suc n) ExprPrec lhs s =
     (case ORDER_OF_OPS_at (CurrToken s) s of (TokPrec, s1) \<Rightarrow>
      if TokPrec < ExprPrec then Some (Some lhs, s1)
      else (let CurrOp = CurrToken s1; s2 = GetNextToken s1 in
        case ParseLhs n s2 of
          None \<Rightarrow> None
        | Some (None, s3) \<Rightarrow> Some (None, s3)
        | Some (Some rhs, s3) \<Rightarrow>
           (case ORDER_OF_OPS_at (CurrToken s3) s3 of (NextPrec, s4) \<Rightarrow>
            if TokPrec < NextPrec then
              (case ParseBinOpRhs n (TokPrec + 1) rhs s4 of
                 None \<Rightarrow> None
               | Some (None, s5) \<Rightarrow> Some (None, s5)
               | Some (Some rhs1, s5) \<Rightarrow>
                   ParseBinOpRhs n ExprPrec (BinOpAST (char_of CurrOp) lhs rhs1) s5)
            else ParseBinOpRhs n ExprPrec (BinOpAST (char_of CurrOp) lhs rhs) s4)))"

subsection \<open>Top-level constructs\<close>

definition ParseFuncDef :: "nat \<Rightarrow> state \<Rightarrow> (ExprAST option \<times> state) option" where
  "ParseFuncDef n s0 =
     (let s1 = GetNextToken s0 in
      case ParseFuncProto s1 of
        (None, s2) \<Rightarrow> Some (None, s2)
      | (Some proto, s2) \<Rightarrow>
          (case ParseExpr n s2 of
             None \<Rightarrow> None
           | Some (None, s3) \<Rightarrow> Some (None, s3)
           | Some (Some body, s3) \<Rightarrow> Some (Some (FunctionAST proto body), s3)))"

definition ParseTopLevelExpr :: "nat \<Rightarrow> state \<Rightarrow> (ExprAST option \<times> state) option" where
  "ParseTopLevelExpr n s =
     (case ParseExpr n s of
        None \<Rightarrow> None
      | Some (None, s1) \<Rightarrow> Some (None, s1)
      | Some (Some expr, s1) \<Rightarrow>
          (let proto = FuncProtoAST [] ''__anon_func__'' in
           Some (Some (FunctionAST proto expr), s1)))"

definition ParseImport :: "state \<Rightarrow> ExprAST option \<times> state" where
  "ParseImport s = (None, RaiseError ''Import not implemented.'' s)"

subsection \<open>The driver\<close>

text \<open>
  \<open>HandleFuncDef\<close> and \<open>HandleImport\<close> test \<open>if (ParseFuncDef)\<close> and
  \<open>if (ParseImport)\<close>: the name of a function with no call, which converts to a pointer
  that is not null, so the condition is \<open>True\<close> whatever the input. The parser is never
  called, the empty first branch is taken, and the \<open>GetNextToken()\<close> of the second is
  never reached. \<open>HandleTopLevelExpr\<close> does call \<open>ParseTopLevelExpr()\<close>, and advances one
  token when the result is null.
\<close>

definition HandleFuncDef :: "state \<Rightarrow> state" where
  "HandleFuncDef s = (if True then s else GetNextToken s)"

definition HandleImport :: "state \<Rightarrow> state" where
  "HandleImport s = (if True then s else GetNextToken s)"

definition HandleTopLevelExpr :: "nat \<Rightarrow> state \<Rightarrow> state option" where
  "HandleTopLevelExpr n s =
     (case ParseTopLevelExpr n s of
        None \<Rightarrow> None
      | Some (Some e, s1) \<Rightarrow> Some s1
      | Some (None, s1) \<Rightarrow> Some (GetNextToken s1))"

text \<open>
  \<open>TopLevelParse\<close>: \<open>while (CurrToken != EOF) switch (CurrToken) {...}\<close>, one unit of
  fuel for each iteration; the result is the state in which the loop is left, and \<open>None\<close>
  says that the fuel did not suffice. The case \<open>';'\<close> is \<open>break\<close> alone.
\<close>

fun TopLevelParse :: "nat \<Rightarrow> state \<Rightarrow> state option" where
  "TopLevelParse 0 s = None"
| "TopLevelParse (Suc n) s =
     (if CurrToken s \<noteq> EOF then
        (if CurrToken s = tok_func then TopLevelParse n (HandleFuncDef s)
         else if CurrToken s = tok_import then TopLevelParse n (HandleImport s)
         else if CurrToken s = 59 then TopLevelParse n s
         else (case HandleTopLevelExpr n s of
                 None \<Rightarrow> None
               | Some s1 \<Rightarrow> TopLevelParse n s1))
      else Some s)"

text \<open>\<open>main\<close> populates nothing and calls \<open>TopLevelParse\<close>.\<close>

definition main :: "nat \<Rightarrow> string \<Rightarrow> state option" where
  "main n inp = TopLevelParse n (initial Map.empty inp)"

section \<open>Evaluation\<close>

text \<open>The equations that run the lexer and the parser primitives on a concrete input.\<close>

lemmas lex_eval = gettok.simps skip_space.simps ident_loop.simps number_loop.simps
  comment_loop.simps next_LastChar_def getchar_def gettok_rest_def isspace_def isalpha_def
  isalnum_def isdigit_def Let_def strtod_def initial_def char_of_def

lemmas parse_eval = GetNextToken_def ORDER_OF_OPS_at_def RaiseError_def ParseNumber_def
  eval_nat_numeral

section \<open>The lexer: comments\<close>

text \<open>A character read from the input is never \<open>EOF\<close>, and it is a line feed or a
  carriage return exactly when its code says so.\<close>

lemma of_char_int_nonneg: "(0::int) \<le> of_char c"
proof -
  have "(of_char c :: int) = of_char c mod 256"
    by simp
  also have "\<dots> \<ge> 0"
    by (rule pos_mod_sign) simp
  finally show ?thesis .
qed

lemma of_char_not_EOF: "(of_char c :: int) \<noteq> EOF"
  using of_char_int_nonneg [of c] by simp

lemma of_char_eq_LF: "(of_char c :: int) = 10 \<longleftrightarrow> c = CHR 0x0A"
proof -
  have "(of_char c :: int) = of_char (CHR 0x0A) \<longleftrightarrow> c = CHR 0x0A"
    by (rule of_char_eq_iff)
  then show ?thesis by simp
qed

lemma of_char_eq_CR: "(of_char c :: int) = 13 \<longleftrightarrow> c = CHR 0x0D"
proof -
  have "(of_char c :: int) = of_char (CHR 0x0D) \<longleftrightarrow> c = CHR 0x0D"
    by (rule of_char_eq_iff)
  then show ?thesis by simp
qed

lemma comment_loop_line:
  "CHR 0x0A \<notin> set cs \<Longrightarrow> CHR 0x0D \<notin> set cs \<Longrightarrow> nl = CHR 0x0A \<or> nl = CHR 0x0D \<Longrightarrow>
   stdin s = cs @ nl # rest \<Longrightarrow>
   comment_loop s = s\<lparr>stdin := rest, LastChar := of_char nl\<rparr>"
proof (induction cs arbitrary: s)
  case Nil
  then show ?case
    by (subst comment_loop.simps) (auto simp: Let_def next_LastChar_def getchar_def)
next
  case (Cons c cs)
  let ?s1 = "next_LastChar s"
  from Cons.prems have s1: "?s1 = s\<lparr>stdin := cs @ nl # rest, LastChar := of_char c\<rparr>"
    by (simp add: next_LastChar_def getchar_def)
  from Cons.prems have c: "c \<noteq> CHR 0x0A" "c \<noteq> CHR 0x0D"
    by auto
  have "comment_loop s = comment_loop ?s1"
    using c by (subst comment_loop.simps)
      (simp add: Let_def s1 of_char_eq_LF of_char_eq_CR of_char_not_EOF)
  also have "\<dots> = ?s1\<lparr>stdin := rest, LastChar := of_char nl\<rparr>"
    using Cons.prems by (intro Cons.IH) (simp_all add: s1)
  finally show ?case
    by (simp add: s1)
qed

lemma comment_loop_no_line_end:
  "stdin s = cs \<Longrightarrow> CHR 0x0A \<notin> set cs \<Longrightarrow> CHR 0x0D \<notin> set cs \<Longrightarrow>
   comment_loop s = s\<lparr>stdin := [], LastChar := EOF\<rparr>"
proof (induction cs arbitrary: s)
  case Nil
  then show ?case
    by (subst comment_loop.simps) (simp add: Let_def next_LastChar_def getchar_def)
next
  case (Cons c cs)
  let ?s1 = "next_LastChar s"
  from Cons.prems have s1: "?s1 = s\<lparr>stdin := cs, LastChar := of_char c\<rparr>"
    by (simp add: next_LastChar_def getchar_def)
  from Cons.prems have c: "c \<noteq> CHR 0x0A" "c \<noteq> CHR 0x0D"
    by auto
  have "comment_loop s = comment_loop ?s1"
    using c by (subst comment_loop.simps)
      (simp add: Let_def s1 of_char_eq_LF of_char_eq_CR of_char_not_EOF)
  also have "\<dots> = ?s1\<lparr>stdin := [], LastChar := EOF\<rparr>"
    using Cons.prems by (intro Cons.IH) (simp_all add: s1)
  finally show ?case
    by (simp add: s1)
qed

lemma comment_loop_eof:
  "CHR 0x0A \<notin> set (stdin s) \<Longrightarrow> CHR 0x0D \<notin> set (stdin s) \<Longrightarrow>
   comment_loop s = s\<lparr>stdin := [], LastChar := EOF\<rparr>"
  by (rule comment_loop_no_line_end [OF refl])

text \<open>What \<open>gettok\<close> does when, after the white space, it stands at \<open>'#'\<close>.\<close>

lemma gettok_at_comment:
  "LastChar (skip_space s) = 35 \<Longrightarrow>
   gettok s = (let s1 = comment_loop (skip_space s) in
               if LastChar s1 \<noteq> EOF then gettok s1 else gettok_rest s1)"
  by (subst gettok.simps) (simp add: Let_def isalpha_def isdigit_def)

text \<open>
  Claim C7. Comments are transparent to the token stream. Lexing the two-line input
  \<open># note\<close>, line feed, \<open>42\<close> gives the numeric token with \<open>NumVal = 42\<close> at the first
  call and end-of-input at the second, whatever the table. In general: when \<open>gettok\<close>,
  after the white space, stands at \<open>'#'\<close> and the comment \<open>cs\<close> is ended by a line feed or
  carriage return \<open>nl\<close>, the call returns what \<open>gettok\<close> returns on the state in which
  \<open>cs\<close> is gone, \<open>nl\<close> is the look-ahead (it is not discarded with the comment) and
  nothing else has changed: no token stands for the comment.
\<close>

theorem comment_transparent:
  "gettok (initial T ''# note\<newline>42'') =
     (tok_number, \<lparr>stdin = [], LastChar = EOF, IdentifierStr = [], NumVal = 42,
                   CurrToken = 0, ORDER_OF_OPS = T, stderr = []\<rparr>)
   \<and> gettok \<lparr>stdin = [], LastChar = EOF, IdentifierStr = [], NumVal = 42,
              CurrToken = 0, ORDER_OF_OPS = T, stderr = []\<rparr> =
     (tok_eof, \<lparr>stdin = [], LastChar = EOF, IdentifierStr = [], NumVal = 42,
                CurrToken = 0, ORDER_OF_OPS = T, stderr = []\<rparr>)
   \<and> (\<forall>s cs nl rest.
        LastChar (skip_space s) = 35 \<and> stdin (skip_space s) = cs @ nl # rest
        \<and> (nl = CHR 0x0A \<or> nl = CHR 0x0D) \<and> CHR 0x0A \<notin> set cs \<and> CHR 0x0D \<notin> set cs
        \<longrightarrow> gettok s = gettok ((skip_space s)\<lparr>stdin := rest, LastChar := of_char nl\<rparr>))"
proof (intro conjI allI impI)
  show "gettok (initial T ''# note\<newline>42'') =
     (tok_number, \<lparr>stdin = [], LastChar = EOF, IdentifierStr = [], NumVal = 42,
                   CurrToken = 0, ORDER_OF_OPS = T, stderr = []\<rparr>)"
    by (simp add: lex_eval)
next
  show "gettok \<lparr>stdin = [], LastChar = EOF, IdentifierStr = [], NumVal = 42,
              CurrToken = 0, ORDER_OF_OPS = T, stderr = []\<rparr> =
     (tok_eof, \<lparr>stdin = [], LastChar = EOF, IdentifierStr = [], NumVal = 42,
                CurrToken = 0, ORDER_OF_OPS = T, stderr = []\<rparr>)"
    by (simp add: lex_eval)
next
  fix s cs nl rest
  assume a: "LastChar (skip_space s) = 35 \<and> stdin (skip_space s) = cs @ nl # rest
        \<and> (nl = CHR 0x0A \<or> nl = CHR 0x0D) \<and> CHR 0x0A \<notin> set cs \<and> CHR 0x0D \<notin> set cs"
  then have "comment_loop (skip_space s) = (skip_space s)\<lparr>stdin := rest, LastChar := of_char nl\<rparr>"
    by (intro comment_loop_line) simp_all
  with a show "gettok s = gettok ((skip_space s)\<lparr>stdin := rest, LastChar := of_char nl\<rparr>)"
    by (simp add: gettok_at_comment of_char_not_EOF)
qed

theorem comment_transparent_witness:
  "LastChar (skip_space (initial Map.empty (''  # one'' @ CHR 0x0D # ''7''))) = 35
   \<and> stdin (skip_space (initial Map.empty (''  # one'' @ CHR 0x0D # ''7''))) =
       '' one'' @ CHR 0x0D # ''7''
   \<and> CHR 0x0A \<notin> set '' one'' \<and> CHR 0x0D \<notin> set '' one''
   \<and> gettok (initial Map.empty (''  # one'' @ CHR 0x0D # ''7'')) =
       (tok_number, \<lparr>stdin = [], LastChar = EOF, IdentifierStr = [], NumVal = 7,
                     CurrToken = 0, ORDER_OF_OPS = Map.empty, stderr = []\<rparr>)"
proof -
  let ?s = "initial Map.empty (''  # one'' @ CHR 0x0D # ''7'')"
  have sk: "skip_space ?s = \<lparr>stdin = '' one'' @ CHR 0x0D # ''7'', LastChar = 35,
      IdentifierStr = [], NumVal = 0, CurrToken = 0, ORDER_OF_OPS = Map.empty, stderr = []\<rparr>"
    by (simp add: skip_space.simps next_LastChar_def getchar_def isspace_def initial_def)
  have h: "LastChar (skip_space ?s) = 35 \<and> stdin (skip_space ?s) = '' one'' @ CHR 0x0D # ''7''
      \<and> (CHR 0x0D = CHR 0x0A \<or> CHR 0x0D = CHR 0x0D)
      \<and> CHR 0x0A \<notin> set '' one'' \<and> CHR 0x0D \<notin> set '' one''"
    unfolding sk by simp
  have after: "gettok \<lparr>stdin = ''7'', LastChar = 13, IdentifierStr = [], NumVal = 0,
      CurrToken = 0, ORDER_OF_OPS = Map.empty, stderr = []\<rparr> =
      (tok_number, \<lparr>stdin = [], LastChar = EOF, IdentifierStr = [], NumVal = 7,
                     CurrToken = 0, ORDER_OF_OPS = Map.empty, stderr = []\<rparr>)"
    by (simp add: lex_eval)
  from comment_transparent [of Map.empty, THEN conjunct2, THEN conjunct2, rule_format, OF h]
  have "gettok ?s = gettok ((skip_space ?s)\<lparr>stdin := ''7'', LastChar := of_char (CHR 0x0D)\<rparr>)" .
  then have "gettok ?s = (tok_number, \<lparr>stdin = [], LastChar = EOF, IdentifierStr = [],
      NumVal = 7, CurrToken = 0, ORDER_OF_OPS = Map.empty, stderr = []\<rparr>)"
    unfolding sk by (simp add: after)
  with h show ?thesis
    by simp
qed

text \<open>
  Claim C10. A comment that runs to the end of the input with no line end: the same call
  of \<open>gettok\<close> returns \<open>tok_eof\<close> through the end-of-file test at its end, with no further
  call of \<open>gettok\<close>; the input is exhausted, the look-ahead is \<open>EOF\<close>, and nothing else
  of the state has changed (in particular nothing was printed).
\<close>

theorem trailing_comment_eof:
  assumes "LastChar (skip_space s) = 35"
    and "CHR 0x0A \<notin> set (stdin (skip_space s))"
    and "CHR 0x0D \<notin> set (stdin (skip_space s))"
  shows "gettok s = gettok_rest (comment_loop (skip_space s))
     \<and> gettok s = (tok_eof, (skip_space s)\<lparr>stdin := [], LastChar := EOF\<rparr>)"
proof -
  have "comment_loop (skip_space s) = (skip_space s)\<lparr>stdin := [], LastChar := EOF\<rparr>"
    using assms(2,3) by (rule comment_loop_eof)
  with assms(1) show ?thesis
    by (simp add: gettok_at_comment gettok_rest_def)
qed

theorem trailing_comment_eof_witness:
  "LastChar (skip_space (initial Map.empty ''  # the end'')) = 35
   \<and> CHR 0x0A \<notin> set (stdin (skip_space (initial Map.empty ''  # the end'')))
   \<and> CHR 0x0D \<notin> set (stdin (skip_space (initial Map.empty ''  # the end'')))
   \<and> gettok (initial Map.empty ''  # the end'') =
       (tok_eof, \<lparr>stdin = [], LastChar = EOF, IdentifierStr = [], NumVal = 0,
                  CurrToken = 0, ORDER_OF_OPS = Map.empty, stderr = []\<rparr>)"
proof -
  let ?s = "initial Map.empty ''  # the end''"
  have sk: "skip_space ?s = \<lparr>stdin = '' the end'', LastChar = 35, IdentifierStr = [], NumVal = 0,
                  CurrToken = 0, ORDER_OF_OPS = Map.empty, stderr = []\<rparr>"
    by (simp add: skip_space.simps next_LastChar_def getchar_def isspace_def initial_def)
  have h1: "LastChar (skip_space ?s) = 35"
    and h2: "CHR 0x0A \<notin> set (stdin (skip_space ?s))"
    and h3: "CHR 0x0D \<notin> set (stdin (skip_space ?s))"
    by (simp_all add: sk)
  from trailing_comment_eof [OF h1 h2 h3, THEN conjunct2] h1 h2 h3 show ?thesis
    by (simp add: sk)
qed

section \<open>Function prototypes and definitions\<close>

text \<open>
  The parameter loop tests the token after a parameter for \<open>','\<close> and, on a comma,
  starts the next iteration with the comma still current; the iteration then fails its
  test for an identifier.
\<close>

lemma ParseFuncProto_args_comma:
  assumes "CurrToken s = tok_identifier" and "CurrToken (GetNextToken s) = 44"
  shows "ParseFuncProto_args args s =
    (None, RaiseError ''Expected identifier in function definition.'' (GetNextToken s))"
proof -
  have "ParseFuncProto_args args s = ParseFuncProto_args (args @ [IdentifierStr s]) (GetNextToken s)"
    using assms by (subst ParseFuncProto_args.simps) (simp add: Let_def)
  also have "\<dots> = (None, RaiseError ''Expected identifier in function definition.'' (GetNextToken s))"
    using assms(2) by (subst ParseFuncProto_args.simps) simp
  finally show ?thesis .
qed

text \<open>So a prototype that is parsed has exactly one parameter.\<close>

lemma ParseFuncProto_args_Some:
  assumes "ParseFuncProto_args args s = (Some as, s')"
  shows "as = args @ [IdentifierStr s] \<and> s' = GetNextToken s"
proof (cases "CurrToken s = tok_identifier")
  case False
  with assms show ?thesis
    by (subst (asm) ParseFuncProto_args.simps) simp
next
  case True
  show ?thesis
  proof (cases "CurrToken (GetNextToken s) = 44")
    case True
    with \<open>CurrToken s = tok_identifier\<close> assms show ?thesis
      by (simp add: ParseFuncProto_args_comma)
  next
    case False
    with True assms show ?thesis
      by (subst (asm) ParseFuncProto_args.simps) (auto simp: Let_def)
  qed
qed

lemma ParseFuncProto_one_parameter:
  assumes "ParseFuncProto s0 = (Some p, s')"
  shows "length (argNames p) = 1"
  using assms
  by (auto simp: ParseFuncProto_def Let_def split: if_splits prod.splits option.splits
      dest!: ParseFuncProto_args_Some)

text \<open>
  Claim C9. A parameter list with a comma after its first parameter makes
  \<open>ParseFuncProto\<close> fail. When the tokens that follow the current one are an identifier
  (the name), \<open>'('\<close>, an identifier (the first parameter) and \<open>','\<close>, the result is
  null, the state is the one in which the comma is the current token (it was tested,
  not consumed, and met again where an identifier is required), and the diagnostic
  "Expected identifier in function definition." has been printed.
\<close>

theorem ParseFuncProto_comma_fails:
  assumes "CurrToken (GetNextToken s0) = tok_identifier"
    and "CurrToken (GetNextToken (GetNextToken s0)) = 40"
    and "CurrToken (GetNextToken (GetNextToken (GetNextToken s0))) = tok_identifier"
    and "CurrToken (GetNextToken (GetNextToken (GetNextToken (GetNextToken s0)))) = 44"
  shows "ParseFuncProto s0 =
    (None, RaiseError ''Expected identifier in function definition.''
             (GetNextToken (GetNextToken (GetNextToken (GetNextToken s0)))))"
  using assms by (simp add: ParseFuncProto_def Let_def ParseFuncProto_args_comma)

text \<open>The input \<open>func add(a, b) a + b\<close> once the keyword is the current token.\<close>

lemma lex_func_add:
  "GetNextToken (initial T ''func add(a, b) a + b'') =
     \<lparr>stdin = ''add(a, b) a + b'', LastChar = 32, IdentifierStr = ''func'', NumVal = 0,
      CurrToken = tok_func, ORDER_OF_OPS = T, stderr = []\<rparr>"
  by (simp add: lex_eval parse_eval)

theorem ParseFuncProto_comma_fails_witness:
  "CurrToken (GetNextToken \<lparr>stdin = ''add(a, b) a + b'', LastChar = 32, IdentifierStr = ''func'', NumVal = 0,
      CurrToken = tok_func, ORDER_OF_OPS = Map.empty, stderr = []\<rparr>) = tok_identifier
   \<and> ParseFuncProto \<lparr>stdin = ''add(a, b) a + b'', LastChar = 32, IdentifierStr = ''func'', NumVal = 0,
      CurrToken = tok_func, ORDER_OF_OPS = Map.empty, stderr = []\<rparr> =
     (None, \<lparr>stdin = ''b) a + b'', LastChar = 32, IdentifierStr = ''a'', NumVal = 0,
      CurrToken = 44, ORDER_OF_OPS = Map.empty,
      stderr = ''Error: Expected identifier in function definition.\<newline>''\<rparr>)"
proof -
  let ?s0 = "\<lparr>stdin = ''add(a, b) a + b'', LastChar = 32, IdentifierStr = ''func'', NumVal = 0,
      CurrToken = tok_func, ORDER_OF_OPS = Map.empty, stderr = []\<rparr>"
  have t1: "GetNextToken ?s0 = \<lparr>stdin = ''a, b) a + b'', LastChar = 40, IdentifierStr = ''add'',
      NumVal = 0, CurrToken = tok_identifier, ORDER_OF_OPS = Map.empty, stderr = []\<rparr>"
    by (simp add: lex_eval parse_eval)
  have t2: "GetNextToken (GetNextToken ?s0) = \<lparr>stdin = '', b) a + b'', LastChar = 97,
      IdentifierStr = ''add'', NumVal = 0, CurrToken = 40, ORDER_OF_OPS = Map.empty, stderr = []\<rparr>"
    unfolding t1 by (simp add: lex_eval parse_eval)
  have t3: "GetNextToken (GetNextToken (GetNextToken ?s0)) = \<lparr>stdin = '' b) a + b'',
      LastChar = 44, IdentifierStr = ''a'', NumVal = 0, CurrToken = tok_identifier,
      ORDER_OF_OPS = Map.empty, stderr = []\<rparr>"
    unfolding t2 by (simp add: lex_eval parse_eval)
  have t4: "GetNextToken (GetNextToken (GetNextToken (GetNextToken ?s0))) =
      \<lparr>stdin = ''b) a + b'', LastChar = 32, IdentifierStr = ''a'', NumVal = 0, CurrToken = 44,
       ORDER_OF_OPS = Map.empty, stderr = []\<rparr>"
    unfolding t3 by (simp add: lex_eval parse_eval)
  have h1: "CurrToken (GetNextToken ?s0) = tok_identifier"
    unfolding t1 by simp
  have h2: "CurrToken (GetNextToken (GetNextToken ?s0)) = 40"
    unfolding t2 by simp
  have h3: "CurrToken (GetNextToken (GetNextToken (GetNextToken ?s0))) = tok_identifier"
    unfolding t3 by simp
  have h4: "CurrToken (GetNextToken (GetNextToken (GetNextToken (GetNextToken ?s0)))) = 44"
    unfolding t4 by simp
  from ParseFuncProto_comma_fails [OF h1 h2 h3 h4] h1 show ?thesis
    unfolding t4 by (simp add: RaiseError_def)
qed

text \<open>
  Claim C4, on the code. \<open>func add(a, b) a + b\<close> is not parsed as a function definition:
  for every fuel and every table \<open>ParseFuncDef\<close> returns null. Called with \<open>func\<close> as
  the current token (the state in which the driver would dispatch to it), \<open>ParseFuncDef\<close>
  eats the keyword and \<open>ParseFuncProto\<close> then eats one more token, the name \<open>add\<close>, so
  that \<open>'('\<close> stands where the name is looked for. Called before any token has been read,
  the name is found and the parse fails at the comma of the parameter list instead.
\<close>

theorem ParseFuncDef_add_null:
  "ParseFuncDef n (GetNextToken (initial T ''func add(a, b) a + b'')) =
     Some (None, \<lparr>stdin = '', b) a + b'', LastChar = 97, IdentifierStr = ''add'', NumVal = 0,
       CurrToken = 40, ORDER_OF_OPS = T,
       stderr = ''Error: Expected identifier in function definition.\<newline>''\<rparr>)
   \<and> ParseFuncDef n (initial T ''func add(a, b) a + b'') =
     Some (None, \<lparr>stdin = ''b) a + b'', LastChar = 32, IdentifierStr = ''a'', NumVal = 0,
       CurrToken = 44, ORDER_OF_OPS = T,
       stderr = ''Error: Expected identifier in function definition.\<newline>''\<rparr>)"
  by (simp add: ParseFuncDef_def ParseFuncProto_def ParseFuncProto_args.simps lex_eval parse_eval)

section \<open>Top-level expressions\<close>

text \<open>
  Claim C8. Whenever \<open>ParseTopLevelExpr\<close> returns a tree, \<open>ParseExpr\<close> has returned a
  tree \<open>body\<close> from the same state with the same fuel, leaving the same final state, and
  the result is the \<open>FunctionAST\<close> of that body under the prototype with no parameters and
  the fixed name \<open>__anon_func__\<close>.
\<close>

theorem ParseTopLevelExpr_shape:
  assumes "ParseTopLevelExpr n s = Some (Some r, s')"
  shows "\<exists>body. ParseExpr n s = Some (Some body, s')
           \<and> r = FunctionAST (FuncProtoAST [] ''__anon_func__'') body"
  using assms
  by (auto simp: ParseTopLevelExpr_def Let_def split: option.splits prod.splits)

text \<open>An instance: the expression \<open>x\<close>, with a table that gives the end-of-input key
  a negative precedence.\<close>

lemma ParseTopLevelExpr_x:
  "ParseTopLevelExpr 4 (GetNextToken (initial [CHR 0xFF \<mapsto> -1] ''x'')) =
     Some (Some (FunctionAST (FuncProtoAST [] ''__anon_func__'') (VariableAST ''x'')),
       \<lparr>stdin = [], LastChar = EOF, IdentifierStr = ''x'', NumVal = 0, CurrToken = tok_eof,
        ORDER_OF_OPS = [CHR 0xFF \<mapsto> -1], stderr = []\<rparr>)"
  by (simp add: ParseTopLevelExpr_def lex_eval parse_eval)

theorem ParseTopLevelExpr_shape_witness:
  "ParseTopLevelExpr 4 (GetNextToken (initial [CHR 0xFF \<mapsto> -1] ''x'')) =
     Some (Some (FunctionAST (FuncProtoAST [] ''__anon_func__'') (VariableAST ''x'')),
       \<lparr>stdin = [], LastChar = EOF, IdentifierStr = ''x'', NumVal = 0, CurrToken = tok_eof,
        ORDER_OF_OPS = [CHR 0xFF \<mapsto> -1], stderr = []\<rparr>)
   \<and> (\<exists>body. ParseExpr 4 (GetNextToken (initial [CHR 0xFF \<mapsto> -1] ''x'')) =
         Some (Some body, \<lparr>stdin = [], LastChar = EOF, IdentifierStr = ''x'', NumVal = 0,
           CurrToken = tok_eof, ORDER_OF_OPS = [CHR 0xFF \<mapsto> -1], stderr = []\<rparr>)
       \<and> FunctionAST (FuncProtoAST [] ''__anon_func__'') (VariableAST ''x'') =
           FunctionAST (FuncProtoAST [] ''__anon_func__'') body)"
  using ParseTopLevelExpr_shape [OF ParseTopLevelExpr_x] ParseTopLevelExpr_x
  by simp

section \<open>Tokens absent from the precedence table\<close>

text \<open>A tree returned by \<open>ParseBinOpRhs\<close> is the left-hand side it was given or
  something larger built around it.\<close>

lemma ParseBinOpRhs_size:
  "ParseBinOpRhs n ExprPrec lhs s = Some (Some e, s') \<Longrightarrow> size lhs \<le> size e"
proof (induction n arbitrary: ExprPrec lhs s)
  case 0
  then show ?case by simp
next
  case (Suc n)
  obtain TokPrec s1 where l1: "ORDER_OF_OPS_at (CurrToken s) s = (TokPrec, s1)"
    by (cases "ORDER_OF_OPS_at (CurrToken s) s")
  show ?case
  proof (cases "TokPrec < ExprPrec")
    case True
    with Suc.prems l1 show ?thesis by simp
  next
    case False
    let ?op = "char_of (CurrToken s1)"
    from Suc.prems l1 False obtain rhs s3 where
      lhs: "ParseLhs n (GetNextToken s1) = Some (Some rhs, s3)"
      by (auto simp: Let_def split: option.splits prod.splits)
    obtain NextPrec s4 where l2: "ORDER_OF_OPS_at (CurrToken s3) s3 = (NextPrec, s4)"
      by (cases "ORDER_OF_OPS_at (CurrToken s3) s3")
    from Suc.prems l1 False lhs l2 obtain r s5 where
      "ParseBinOpRhs n ExprPrec (BinOpAST ?op lhs r) s5 = Some (Some e, s')"
      by (auto simp: Let_def split: option.splits prod.splits if_splits)
    from Suc.IH [OF this] show ?thesis by simp
  qed
qed

text \<open>
  Claim C2, on the code. The precedence looked up for a token that is absent from the
  table is 0, not a value below every minimum precedence. So \<open>ParseBinOpRhs\<close>, called
  with minimum precedence 0 at such a token, does not leave its loop there: whatever
  the fuel, it never returns the left-hand side it was given. It takes the token for a
  binary operator, consumes it and asks for a right-hand operand.
\<close>

theorem ParseBinOpRhs_absent_token:
  assumes "ORDER_OF_OPS s (char_of (CurrToken s)) = None"
  shows "fst (ORDER_OF_OPS_at (CurrToken s) s) = 0
       \<and> ParseBinOpRhs n 0 lhs s \<noteq> Some (Some lhs, s')"
proof
  from assms show z: "fst (ORDER_OF_OPS_at (CurrToken s) s) = 0"
    by (simp add: ORDER_OF_OPS_at_def)
  show "ParseBinOpRhs n 0 lhs s \<noteq> Some (Some lhs, s')"
  proof
    assume r: "ParseBinOpRhs n 0 lhs s = Some (Some lhs, s')"
    then obtain m where n: "n = Suc m"
      by (cases n) simp_all
    obtain s1 where l1: "ORDER_OF_OPS_at (CurrToken s) s = (0, s1)"
      using z by (cases "ORDER_OF_OPS_at (CurrToken s) s") simp
    let ?op = "char_of (CurrToken s1)"
    from r n l1 obtain rhs s3 where
      lhs: "ParseLhs m (GetNextToken s1) = Some (Some rhs, s3)"
      by (auto simp: Let_def split: option.splits prod.splits)
    obtain NextPrec s4 where l2: "ORDER_OF_OPS_at (CurrToken s3) s3 = (NextPrec, s4)"
      by (cases "ORDER_OF_OPS_at (CurrToken s3) s3")
    from r n l1 lhs l2 obtain e s5 where
      "ParseBinOpRhs m 0 (BinOpAST ?op lhs e) s5 = Some (Some lhs, s')"
      by (auto simp: Let_def split: option.splits prod.splits if_splits)
    from ParseBinOpRhs_size [OF this] show False by simp
  qed
qed

text \<open>The input \<open>a;\<close> with the empty table, after \<open>a\<close> has been parsed and \<open>';'\<close> is the
  current token: the semicolon is consumed and the result is null.\<close>

lemma lex_a_semicolon:
  "GetNextToken (GetNextToken (initial Map.empty ''a;'')) =
     \<lparr>stdin = [], LastChar = EOF, IdentifierStr = ''a'', NumVal = 0, CurrToken = 59,
      ORDER_OF_OPS = Map.empty, stderr = []\<rparr>"
  by (simp add: lex_eval parse_eval)

theorem ParseBinOpRhs_absent_token_witness:
  "ORDER_OF_OPS \<lparr>stdin = [], LastChar = EOF, IdentifierStr = ''a'', NumVal = 0, CurrToken = 59,
      ORDER_OF_OPS = Map.empty, stderr = []\<rparr> (char_of (59::int)) = None
   \<and> ParseBinOpRhs 2 0 (VariableAST ''a'')
       \<lparr>stdin = [], LastChar = EOF, IdentifierStr = ''a'', NumVal = 0, CurrToken = 59,
        ORDER_OF_OPS = Map.empty, stderr = []\<rparr> =
     Some (None, \<lparr>stdin = [], LastChar = EOF, IdentifierStr = ''a'', NumVal = 0,
        CurrToken = tok_eof, ORDER_OF_OPS = [CHR '';'' \<mapsto> 0],
        stderr = ''Error: Invalid expression. Expected LHS.\<newline>''\<rparr>)
   \<and> ParseBinOpRhs 2 0 (VariableAST ''a'')
       \<lparr>stdin = [], LastChar = EOF, IdentifierStr = ''a'', NumVal = 0, CurrToken = 59,
        ORDER_OF_OPS = Map.empty, stderr = []\<rparr> \<noteq>
     Some (Some (VariableAST ''a''),
       \<lparr>stdin = [], LastChar = EOF, IdentifierStr = ''a'', NumVal = 0, CurrToken = 59,
        ORDER_OF_OPS = Map.empty, stderr = []\<rparr>)"
proof -
  let ?s = "\<lparr>stdin = [], LastChar = EOF, IdentifierStr = ''a'', NumVal = 0, CurrToken = 59,
      ORDER_OF_OPS = Map.empty, stderr = []\<rparr>"
  have h: "ORDER_OF_OPS ?s (char_of (CurrToken ?s)) = None"
    by simp
  have e: "ParseBinOpRhs 2 0 (VariableAST ''a'') ?s =
     Some (None, \<lparr>stdin = [], LastChar = EOF, IdentifierStr = ''a'', NumVal = 0,
        CurrToken = tok_eof, ORDER_OF_OPS = [CHR '';'' \<mapsto> 0],
        stderr = ''Error: Invalid expression. Expected LHS.\<newline>''\<rparr>)"
    by (simp add: lex_eval parse_eval)
  from ParseBinOpRhs_absent_token [OF h, of 2 "VariableAST ''a''" ?s, THEN conjunct2] h e
  show ?thesis
    by simp
qed

section \<open>Operator expressions\<close>

text \<open>
  Claim C1, on the code. With any table all of whose precedences are non-negative and
  which gives \<open>'+'\<close> and \<open>'*'\<close> precedences \<open>p < q\<close>, parsing \<open>a + b * c\<close> does not yield a
  tree: for every fuel from 5 on \<open>ParseExpr\<close> returns null, having printed
  "Invalid expression. Expected LHS.". At the end of the input the look-up gives 0 (or
  the non-negative entry of the table), never a value below the minimum precedence 0, so
  the loop of \<open>ParseBinOpRhs\<close> goes on and \<open>ParseLhs\<close> fails on the end-of-input token.
\<close>

theorem ParseExpr_add_mul_null:
  assumes "\<forall>k v. T k = Some v \<longrightarrow> 0 \<le> v"
    and "T CHR ''+'' = Some p" and "T CHR ''*'' = Some q" and "p < q"
  shows "ParseExpr (n + 5) (GetNextToken (initial T ''a + b * c'')) =
     Some (None, \<lparr>stdin = [], LastChar = EOF, IdentifierStr = ''c'', NumVal = 0,
       CurrToken = tok_eof,
       ORDER_OF_OPS = (if T (CHR 0xFF) = None then T(CHR 0xFF \<mapsto> 0) else T),
       stderr = ''Error: Invalid expression. Expected LHS.\<newline>''\<rparr>)"
proof -
  from assms(1,2) have p: "0 \<le> p"
    by blast
  show ?thesis
  proof (cases "T (CHR 0xFF)")
    case None
    with assms(2-) p show ?thesis
      by (simp add: lex_eval parse_eval)
  next
    case (Some v)
    with assms(1) have v: "0 \<le> v"
      by blast
    consider "v \<le> p" | "p < v" "v \<le> q" | "q < v"
      by linarith
    then show ?thesis
    proof cases
      case 1
      with Some v p assms(2-) show ?thesis
        by (simp add: lex_eval parse_eval)
    next
      case 2
      with Some v p assms(2-) show ?thesis
        by (simp add: lex_eval parse_eval)
    next
      case 3
      with Some v p assms(2-) show ?thesis
        by (simp add: lex_eval parse_eval)
    qed
  qed
qed

theorem ParseExpr_add_mul_null_witness:
  "[CHR ''+'' \<mapsto> 1, CHR ''*'' \<mapsto> 2] CHR ''+'' = Some (1::int)
   \<and> [CHR ''+'' \<mapsto> 1, CHR ''*'' \<mapsto> 2] CHR ''*'' = Some (2::int)
   \<and> ParseExpr 5 (GetNextToken (initial [CHR ''+'' \<mapsto> 1, CHR ''*'' \<mapsto> 2] ''a + b * c'')) =
     Some (None, \<lparr>stdin = [], LastChar = EOF, IdentifierStr = ''c'', NumVal = 0,
       CurrToken = tok_eof,
       ORDER_OF_OPS = [CHR ''+'' \<mapsto> 1, CHR ''*'' \<mapsto> 2, CHR 0xFF \<mapsto> 0],
       stderr = ''Error: Invalid expression. Expected LHS.\<newline>''\<rparr>)"
proof -
  let ?T = "[CHR ''+'' \<mapsto> 1, CHR ''*'' \<mapsto> 2] :: char \<rightharpoonup> int"
  have h: "\<forall>k v. ?T k = Some v \<longrightarrow> 0 \<le> v"
    by (auto split: if_splits)
  have a: "?T CHR ''+'' = Some 1"
    by simp
  have m: "?T CHR ''*'' = Some 2"
    by simp
  have "ParseExpr (0 + 5) (GetNextToken (initial ?T ''a + b * c'')) =
     Some (None, \<lparr>stdin = [], LastChar = EOF, IdentifierStr = ''c'', NumVal = 0,
       CurrToken = tok_eof,
       ORDER_OF_OPS = (if ?T (CHR 0xFF) = None then ?T(CHR 0xFF \<mapsto> 0) else ?T),
       stderr = ''Error: Invalid expression. Expected LHS.\<newline>''\<rparr>)"
    by (rule ParseExpr_add_mul_null [OF h a m]) simp
  then have e: "ParseExpr 5 (GetNextToken (initial ?T ''a + b * c'')) =
     Some (None, \<lparr>stdin = [], LastChar = EOF, IdentifierStr = ''c'', NumVal = 0,
       CurrToken = tok_eof,
       ORDER_OF_OPS = ?T(CHR 0xFF \<mapsto> 0),
       stderr = ''Error: Invalid expression. Expected LHS.\<newline>''\<rparr>)"
    by simp
  from a m e show ?thesis
    by (intro conjI)
qed

text \<open>A table that itself enters a negative precedence for the end-of-input key makes
  the parse end with the tree.\<close>

lemma ParseExpr_add_mul_sentinel:
  assumes "T CHR ''+'' = Some p" and "T CHR ''*'' = Some q" and "0 \<le> p" and "p < q"
    and "T (CHR 0xFF) = Some t" and "t < 0"
  shows "ParseExpr (n + 5) (GetNextToken (initial T ''a + b * c'')) =
     Some (Some (BinOpAST CHR ''+'' (VariableAST ''a'')
                   (BinOpAST CHR ''*'' (VariableAST ''b'') (VariableAST ''c''))),
       \<lparr>stdin = [], LastChar = EOF, IdentifierStr = ''c'', NumVal = 0,
       CurrToken = tok_eof, ORDER_OF_OPS = T, stderr = []\<rparr>)"
  using assms by (simp add: lex_eval parse_eval)

text \<open>
  Claim C5, on the code. With any table all of whose precedences are non-negative and
  which has an entry for \<open>'-'\<close>, parsing \<open>a - b - c\<close> returns null for every fuel from 5
  on, for the same reason.
\<close>

theorem ParseExpr_sub_sub_null:
  assumes "\<forall>k v. T k = Some v \<longrightarrow> 0 \<le> v" and "T CHR ''-'' = Some p"
  shows "ParseExpr (n + 5) (GetNextToken (initial T ''a - b - c'')) =
     Some (None, \<lparr>stdin = [], LastChar = EOF, IdentifierStr = ''c'', NumVal = 0,
       CurrToken = tok_eof,
       ORDER_OF_OPS = (if T (CHR 0xFF) = None then T(CHR 0xFF \<mapsto> 0) else T),
       stderr = ''Error: Invalid expression. Expected LHS.\<newline>''\<rparr>)"
proof -
  from assms have p: "0 \<le> p"
    by blast
  show ?thesis
  proof (cases "T (CHR 0xFF)")
    case None
    with assms(2) p show ?thesis
      by (simp add: lex_eval parse_eval)
  next
    case (Some v)
    with assms(1) have v: "0 \<le> v"
      by blast
    show ?thesis
    proof (cases "p < v")
      case True
      with Some v p assms(2) show ?thesis
        by (simp add: lex_eval parse_eval)
    next
      case False
      with Some v p assms(2) show ?thesis
        by (simp add: lex_eval parse_eval)
    qed
  qed
qed

theorem ParseExpr_sub_sub_null_witness:
  "[CHR ''-'' \<mapsto> 1] CHR ''-'' = Some (1::int)
   \<and> ParseExpr 5 (GetNextToken (initial [CHR ''-'' \<mapsto> 1] ''a - b - c'')) =
     Some (None, \<lparr>stdin = [], LastChar = EOF, IdentifierStr = ''c'', NumVal = 0,
       CurrToken = tok_eof,
       ORDER_OF_OPS = [CHR ''-'' \<mapsto> 1, CHR 0xFF \<mapsto> 0],
       stderr = ''Error: Invalid expression. Expected LHS.\<newline>''\<rparr>)"
proof -
  let ?T = "[CHR ''-'' \<mapsto> 1] :: char \<rightharpoonup> int"
  have h: "\<forall>k v. ?T k = Some v \<longrightarrow> 0 \<le> v"
    by (auto split: if_splits)
  have a: "?T CHR ''-'' = Some 1"
    by simp
  have "ParseExpr (0 + 5) (GetNextToken (initial ?T ''a - b - c'')) =
     Some (None, \<lparr>stdin = [], LastChar = EOF, IdentifierStr = ''c'', NumVal = 0,
       CurrToken = tok_eof,
       ORDER_OF_OPS = (if ?T (CHR 0xFF) = None then ?T(CHR 0xFF \<mapsto> 0) else ?T),
       stderr = ''Error: Invalid expression. Expected LHS.\<newline>''\<rparr>)"
    by (rule ParseExpr_sub_sub_null [OF h a])
  then have e: "ParseExpr 5 (GetNextToken (initial ?T ''a - b - c'')) =
     Some (None, \<lparr>stdin = [], LastChar = EOF, IdentifierStr = ''c'', NumVal = 0,
       CurrToken = tok_eof,
       ORDER_OF_OPS = ?T(CHR 0xFF \<mapsto> 0),
       stderr = ''Error: Invalid expression. Expected LHS.\<newline>''\<rparr>)"
    by simp
  from a e show ?thesis
    by (intro conjI)
qed

text \<open>With a negative precedence entered for the end-of-input key the operators group
  to the left.\<close>

lemma ParseExpr_sub_sub_sentinel:
  assumes "T CHR ''-'' = Some p" and "0 \<le> p" and "T (CHR 0xFF) = Some t" and "t < 0"
  shows "ParseExpr (n + 5) (GetNextToken (initial T ''a - b - c'')) =
     Some (Some (BinOpAST CHR ''-'' (BinOpAST CHR ''-'' (VariableAST ''a'') (VariableAST ''b''))
                   (VariableAST ''c'')),
       \<lparr>stdin = [], LastChar = EOF, IdentifierStr = ''c'', NumVal = 0,
       CurrToken = tok_eof, ORDER_OF_OPS = T, stderr = []\<rparr>)"
  using assms by (simp add: lex_eval parse_eval)

text \<open>
  Claim C6, on the code. With any table all of whose precedences are non-negative and
  which gives \<open>'+'\<close> and \<open>'*'\<close> precedences \<open>p < q\<close>, parsing \<open>(a + b) * c\<close> returns null
  for every fuel from 7 on: inside the parentheses the look-up for \<open>')'\<close> gives 0 (or the
  table's non-negative entry), \<open>ParseBinOpRhs\<close> consumes the \<open>')'\<close> as an operator and
  fails on \<open>'*'\<close>, and \<open>ParseParenExpr\<close> then misses its closing parenthesis.
\<close>

theorem ParseExpr_paren_null:
  assumes "\<forall>k v. T k = Some v \<longrightarrow> 0 \<le> v"
    and "T CHR ''+'' = Some p" and "T CHR ''*'' = Some q" and "p < q"
  shows "ParseExpr (n + 7) (GetNextToken (initial T ''(a + b) * c'')) =
     Some (None, \<lparr>stdin = ''c'', LastChar = 32, IdentifierStr = ''b'', NumVal = 0,
       CurrToken = 42,
       ORDER_OF_OPS = (if T CHR '')'' = None then T(CHR '')'' \<mapsto> 0) else T),
       stderr = ''Error: Invalid expression. Expected LHS.\<newline>Error: Expected ')'.\<newline>''\<rparr>)"
proof -
  from assms(1,2) have p: "0 \<le> p"
    by blast
  show ?thesis
  proof (cases "T CHR '')''")
    case None
    with assms(2-) p show ?thesis
      by (simp add: lex_eval parse_eval)
  next
    case (Some v)
    with assms(1) have v: "0 \<le> v"
      by blast
    show ?thesis
    proof (cases "p < v")
      case True
      with Some v p assms(2-) show ?thesis
        by (simp add: lex_eval parse_eval)
    next
      case False
      with Some v p assms(2-) show ?thesis
        by (simp add: lex_eval parse_eval)
    qed
  qed
qed

theorem ParseExpr_paren_null_witness:
  "[CHR ''+'' \<mapsto> 1, CHR ''*'' \<mapsto> 2] CHR ''+'' = Some (1::int)
   \<and> [CHR ''+'' \<mapsto> 1, CHR ''*'' \<mapsto> 2] CHR ''*'' = Some (2::int)
   \<and> ParseExpr 7 (GetNextToken (initial [CHR ''+'' \<mapsto> 1, CHR ''*'' \<mapsto> 2] ''(a + b) * c'')) =
     Some (None, \<lparr>stdin = ''c'', LastChar = 32, IdentifierStr = ''b'', NumVal = 0,
       CurrToken = 42,
       ORDER_OF_OPS = [CHR ''+'' \<mapsto> 1, CHR ''*'' \<mapsto> 2, CHR '')'' \<mapsto> 0],
       stderr = ''Error: Invalid expression. Expected LHS.\<newline>Error: Expected ')'.\<newline>''\<rparr>)"
proof -
  let ?T = "[CHR ''+'' \<mapsto> 1, CHR ''*'' \<mapsto> 2] :: char \<rightharpoonup> int"
  have h: "\<forall>k v. ?T k = Some v \<longrightarrow> 0 \<le> v"
    by (auto split: if_splits)
  have a: "?T CHR ''+'' = Some 1"
    by simp
  have m: "?T CHR ''*'' = Some 2"
    by simp
  have "ParseExpr (0 + 7) (GetNextToken (initial ?T ''(a + b) * c'')) =
     Some (None, \<lparr>stdin = ''c'', LastChar = 32, IdentifierStr = ''b'', NumVal = 0,
       CurrToken = 42,
       ORDER_OF_OPS = (if ?T CHR '')'' = None then ?T(CHR '')'' \<mapsto> 0) else ?T),
       stderr = ''Error: Invalid expression. Expected LHS.\<newline>Error: Expected ')'.\<newline>''\<rparr>)"
    by (rule ParseExpr_paren_null [OF h a m]) simp
  then have e: "ParseExpr 7 (GetNextToken (initial ?T ''(a + b) * c'')) =
     Some (None, \<lparr>stdin = ''c'', LastChar = 32, IdentifierStr = ''b'', NumVal = 0,
       CurrToken = 42,
       ORDER_OF_OPS = ?T(CHR '')'' \<mapsto> 0),
       stderr = ''Error: Invalid expression. Expected LHS.\<newline>Error: Expected ')'.\<newline>''\<rparr>)"
    by simp
  from a m e show ?thesis
    by (intro conjI)
qed

text \<open>With negative precedences entered for \<open>')'\<close> and for the end-of-input key the
  parenthesised sum becomes the left operand, with no node for the parentheses.\<close>

lemma ParseExpr_paren_sentinel:
  assumes "T CHR ''+'' = Some p" and "T CHR ''*'' = Some q" and "0 \<le> p" and "p < q"
    and "T CHR '')'' = Some t" and "t < 0" and "T (CHR 0xFF) = Some u" and "u < 0"
  shows "ParseExpr (n + 7) (GetNextToken (initial T ''(a + b) * c'')) =
     Some (Some (BinOpAST CHR ''*'' (BinOpAST CHR ''+'' (VariableAST ''a'') (VariableAST ''b''))
                   (VariableAST ''c'')),
       \<lparr>stdin = [], LastChar = EOF, IdentifierStr = ''c'', NumVal = 0,
       CurrToken = tok_eof, ORDER_OF_OPS = T, stderr = []\<rparr>)"
  using assms by (simp add: lex_eval parse_eval)

section \<open>The driver loop\<close>

text \<open>An iteration at \<open>';'\<close>, at \<open>func\<close> or at \<open>import\<close> leaves the state as it is, so no
  amount of fuel lets the loop end from there.\<close>

lemma TopLevelParse_semicolon: "CurrToken s = 59 \<Longrightarrow> TopLevelParse n s = None"
  by (induction n) simp_all

lemma TopLevelParse_func: "CurrToken s = tok_func \<Longrightarrow> TopLevelParse n s = None"
  by (induction n) (simp_all add: HandleFuncDef_def)

lemma TopLevelParse_import: "CurrToken s = tok_import \<Longrightarrow> TopLevelParse n s = None"
  by (induction n) (simp_all add: HandleImport_def)

text \<open>The first iteration of the program: \<open>CurrToken\<close> is still 0, the top-level
  expression fails, and the driver reads the first token of the input.\<close>

lemma ParseLhs_other:
  assumes "CurrToken s \<noteq> tok_identifier" "CurrToken s \<noteq> tok_number" "CurrToken s \<noteq> 40"
  shows "ParseLhs n s = None \<or>
         ParseLhs n s = Some (None, RaiseError ''Invalid expression. Expected LHS.'' s)"
  using assms by (cases n) simp_all

lemma HandleTopLevelExpr_other:
  assumes "CurrToken s \<noteq> tok_identifier" "CurrToken s \<noteq> tok_number" "CurrToken s \<noteq> 40"
  shows "HandleTopLevelExpr n s = None \<or>
         HandleTopLevelExpr n s =
           Some (GetNextToken (RaiseError ''Invalid expression. Expected LHS.'' s))"
proof (cases n)
  case 0
  then show ?thesis
    by (simp add: HandleTopLevelExpr_def ParseTopLevelExpr_def)
next
  case (Suc m)
  with ParseLhs_other [OF assms, of m] show ?thesis
    by (auto simp: HandleTopLevelExpr_def ParseTopLevelExpr_def)
qed

lemma TopLevelParse_first_step:
  assumes "CurrToken (GetNextToken (RaiseError ''Invalid expression. Expected LHS.'' (initial T inp)))
            \<in> {59, tok_func, tok_import}"
  shows "TopLevelParse n (initial T inp) = None"
proof (cases n)
  case 0
  then show ?thesis by simp
next
  case (Suc m)
  have c: "CurrToken (initial T inp) = 0"
    by (simp add: initial_def)
  from c HandleTopLevelExpr_other [of "initial T inp" m]
  consider "HandleTopLevelExpr m (initial T inp) = None"
    | "HandleTopLevelExpr m (initial T inp) =
         Some (GetNextToken (RaiseError ''Invalid expression. Expected LHS.'' (initial T inp)))"
    by auto
  then show ?thesis
  proof cases
    case 1
    with c Suc show ?thesis by simp
  next
    case 2
    from assms have "TopLevelParse m
        (GetNextToken (RaiseError ''Invalid expression. Expected LHS.'' (initial T inp))) = None"
      by (auto simp: TopLevelParse_semicolon TopLevelParse_func TopLevelParse_import)
    with 2 c Suc show ?thesis by simp
  qed
qed

text \<open>
  Claim C3, on the code. The driver loop does not end on every finite input: on the
  inputs \<open>;\<close>, \<open>func f(x) x\<close> and \<open>import m\<close> the program returns for no amount of fuel.
  At \<open>';'\<close> the loop body does nothing, and \<open>HandleFuncDef\<close> and \<open>HandleImport\<close> neither
  parse nor advance, so the current token stays what it is.
\<close>

theorem driver_never_leaves_semicolon:
  "main n '';'' = None \<and> main n ''func f(x) x'' = None \<and> main n ''import m'' = None"
proof (intro conjI)
  show "main n '';'' = None"
    unfolding main_def by (rule TopLevelParse_first_step) (simp add: lex_eval parse_eval)
  show "main n ''func f(x) x'' = None"
    unfolding main_def by (rule TopLevelParse_first_step) (simp add: lex_eval parse_eval)
  show "main n ''import m'' = None"
    unfolding main_def by (rule TopLevelParse_first_step) (simp add: lex_eval parse_eval)
qed

text \<open>On an input with none of these tokens the loop does end, here after two failed
  top-level expressions.\<close>

lemma main_number_terminates:
  "main (n + 6) ''1'' = Some \<lparr>stdin = [], LastChar = EOF, IdentifierStr = [], NumVal = 1,
     CurrToken = tok_eof, ORDER_OF_OPS = [CHR 0xFF \<mapsto> 0],
     stderr = ''Error: Invalid expression. Expected LHS.\<newline>Error: Invalid expression. Expected LHS.\<newline>''\<rparr>"
  by (simp add: main_def HandleTopLevelExpr_def ParseTopLevelExpr_def lex_eval parse_eval)

end
